theory Spec2Isabelle
  imports Main
begin

section \<open>Text\<close>

text \<open>
  A Python \<^verbatim>\<open>str\<close> is a sequence of code points. The model's alphabet is the first 256
  code points (Latin-1), one \<^typ>\<open>char\<close> each; \<open>of_char\<close> reads the code point. The
  character classes below are the ones the interpreter uses on that range: \<^verbatim>\<open>\d\<close> and
  \<^verbatim>\<open>str.isdecimal\<close> (the digits \<^verbatim>\<open>0\<close> to \<^verbatim>\<open>9\<close>), \<^verbatim>\<open>str.isdigit\<close> (these and the
  superscripts U+00B2, U+00B3, U+00B9), \<^verbatim>\<open>str.isalnum\<close>, the regular-expression class
  \<^verbatim>\<open>\w\<close> (alphanumeric or underscore) and \<^verbatim>\<open>str.isspace\<close>.
\<close>

definition is_decimal :: "char \<Rightarrow> bool" where
  "is_decimal c = (let n = (of_char c :: nat) in 48 \<le> n \<and> n \<le> 57)"

definition is_digit :: "char \<Rightarrow> bool" where
  "is_digit c = (let n = (of_char c :: nat) in
     (48 \<le> n \<and> n \<le> 57) \<or> n = 178 \<or> n = 179 \<or> n = 185)"

definition is_alnum :: "char \<Rightarrow> bool" where
  "is_alnum c = (let n = (of_char c :: nat) in
     (48 \<le> n \<and> n \<le> 57) \<or> (65 \<le> n \<and> n \<le> 90) \<or> (97 \<le> n \<and> n \<le> 122) \<or>
     n = 170 \<or> n = 178 \<or> n = 179 \<or> n = 181 \<or> n = 185 \<or> n = 186 \<or>
     (188 \<le> n \<and> n \<le> 190) \<or> (192 \<le> n \<and> n \<le> 214) \<or> (216 \<le> n \<and> n \<le> 246) \<or>
     (248 \<le> n \<and> n \<le> 255))"

definition is_word :: "char \<Rightarrow> bool" where
  "is_word c = (is_alnum c \<or> c = CHR ''_'')"

definition is_space :: "char \<Rightarrow> bool" where
  "is_space c = (let n = (of_char c :: nat) in
     (9 \<le> n \<and> n \<le> 13) \<or> (28 \<le> n \<and> n \<le> 32) \<or> n = 133 \<or> n = 160)"

definition newline :: char where
  "newline = CHR 0x0A"

text \<open>\<^verbatim>\<open>str.strip()\<close>: leading and trailing whitespace removed.\<close>

definition strip :: "string \<Rightarrow> string" where
  "strip s = rev (dropWhile is_space (rev (dropWhile is_space s)))"

text \<open>\<^verbatim>\<open>sep.join(items)\<close>: the separator between consecutive items only.\<close>

fun join :: "string \<Rightarrow> string list \<Rightarrow> string" where
  "join sep [] = []"
| "join sep [x] = x"
| "join sep (x # y # ys) = x @ sep @ join sep (y # ys)"

section \<open>The pattern \<^verbatim>\<open>\b\d{5,}\b\<close> under \<^verbatim>\<open>re.findall\<close>\<close>

text \<open>
  \<^verbatim>\<open>\b\<close> holds at a position when exactly one of the characters on its two sides is a
  \<^verbatim>\<open>\w\<close> character; a string edge counts as a non-word side.
\<close>

fun word_side :: "char option \<Rightarrow> bool" where
  "word_side None = False"
| "word_side (Some c) = is_word c"

definition is_boundary :: "char option \<Rightarrow> char option \<Rightarrow> bool" where
  "is_boundary l r = (word_side l \<noteq> word_side r)"

fun hd_opt :: "string \<Rightarrow> char option" where
  "hd_opt [] = None"
| "hd_opt (x # xs) = Some x"

text \<open>The character before the position reached after consuming \<open>ys\<close>.\<close>

fun prev_after :: "char option \<Rightarrow> string \<Rightarrow> char option" where
  "prev_after p [] = p"
| "prev_after p (y # ys) = prev_after (Some y) ys"

text \<open>
  The greedy quantifier takes the whole run of digits first and gives characters back one
  at a time, down to five, until the closing \<^verbatim>\<open>\b\<close> holds.
\<close>

fun backtrack :: "char option \<Rightarrow> string \<Rightarrow> nat \<Rightarrow> nat option" where
  "backtrack p xs 0 = None"
| "backtrack p xs (Suc k) =
     (if Suc k < 5 then None
      else if is_boundary (prev_after p (take (Suc k) xs)) (hd_opt (drop (Suc k) xs))
           then Some (Suc k)
      else backtrack p xs k)"

text \<open>One match attempt at a position: the length of the match, if there is one.\<close>

definition match_here :: "char option \<Rightarrow> string \<Rightarrow> nat option" where
  "match_here p xs =
     (if is_boundary p (hd_opt xs)
      then backtrack p xs (length (takeWhile is_decimal xs))
      else None)"

text \<open>
  The scan: a match is reported and the scan resumes after it; otherwise the scan moves one
  character on. \<open>p\<close> is the character before the current position.
\<close>

function findall :: "char option \<Rightarrow> string \<Rightarrow> string list" where
  "findall p xs =
     (case match_here p xs of
        Some k \<Rightarrow> take k xs # findall (prev_after p (take k xs)) (drop k xs)
      | None \<Rightarrow> (case xs of [] \<Rightarrow> [] | x # r \<Rightarrow> findall (Some x) r))"
  by pat_completeness auto
termination
proof (relation "measure (\<lambda>(p, xs). length xs)")
  show "wf (measure (\<lambda>(p, xs). length xs))"
    by simp
next
  fix p :: "char option" and xs :: string and k :: nat
  assume m: "match_here p xs = Some k"
  have bt: "backtrack p xs n = Some k \<Longrightarrow> 5 \<le> k \<and> k \<le> n" for n
    by (induction n) (auto split: if_splits)
  from m have "backtrack p xs (length (takeWhile is_decimal xs)) = Some k"
    by (simp add: match_here_def split: if_splits)
  from bt [OF this] have "5 \<le> k" and "k \<le> length (takeWhile is_decimal xs)"
    by simp_all
  moreover have "length (takeWhile is_decimal xs) \<le> length xs"
    by (rule length_takeWhile_le)
  ultimately show "((prev_after p (take k xs), drop k xs), (p, xs)) \<in> measure (\<lambda>(p, xs). length xs)"
    by simp
next
  fix p :: "char option" and xs :: string and x :: char and r :: string
  assume "xs = x # r"
  then show "((Some x, r), (p, xs)) \<in> measure (\<lambda>(p, xs). length xs)"
    by simp
qed

declare findall.simps [simp del]

definition re_findall :: "string \<Rightarrow> string list" where
  "re_findall text = findall None text"

section \<open>Identifier extraction and output formatting\<close>

text \<open>The loop that removes duplicates while preserving order.\<close>

fun dedup_loop :: "string list \<Rightarrow> string list \<Rightarrow> string set \<Rightarrow> string list" where
  "dedup_loop [] unique_ids seen = unique_ids"
| "dedup_loop (uid # rest) unique_ids seen =
     (if uid \<notin> seen then dedup_loop rest (unique_ids @ [uid]) (insert uid seen)
      else dedup_loop rest unique_ids seen)"

text \<open>The extraction step of \<^verbatim>\<open>process_user_ids\<close>: the pattern, then the loop.\<close>

definition IdentifierExtractor :: "string \<Rightarrow> string list" where
  "IdentifierExtractor message_text =
     (let user_ids = re_findall message_text
      in if user_ids = [] then [] else dedup_loop user_ids [] {})"

text \<open>The loop of \<^verbatim>\<open>process_amount\<close> that builds the lines, and the join.\<close>

fun format_loop :: "string list \<Rightarrow> string \<Rightarrow> string list \<Rightarrow> string list" where
  "format_loop [] amount formatted_lines = formatted_lines"
| "format_loop (user_id # rest) amount formatted_lines =
     format_loop rest amount (formatted_lines @ [user_id @ '' '' @ amount])"

definition OutputFormatter :: "string list \<Rightarrow> string \<Rightarrow> string" where
  "OutputFormatter user_ids amount = join [newline] (format_loop user_ids amount [])"

text \<open>\<^verbatim>\<open>s.split(sep)\<close> for a separator of one character: every occurrence splits.\<close>

fun split_on :: "char \<Rightarrow> string \<Rightarrow> string list" where
  "split_on sep [] = [[]]"
| "split_on sep (c # cs) =
     (if c = sep then [] # split_on sep cs
      else (case split_on sep cs of [] \<Rightarrow> [[c]] | w # ws \<Rightarrow> (c # w) # ws))"

text \<open>The specification's line for one token: the token, one space, the amount.\<close>

definition spec_line :: "string \<Rightarrow> string \<Rightarrow> string" where
  "spec_line token amount = token @ '' '' @ amount"

text \<open>
  \<^verbatim>\<open>int(s)\<close> on a string: surrounding whitespace is skipped (the interpreter skips the
  characters 09 to 0D, 20, 85 and A0 here, fewer than \<^verbatim>\<open>strip\<close> removes), one sign is allowed,
  and the body is decimal digits with single underscores between digits only. Anything else
  raises \<^verbatim>\<open>ValueError\<close>. The interpreter's limit on the number of digits (4300 by
  default) lies above the 4096 characters of a message and the 64 bytes of a button's
  action string, and is not modelled.
\<close>

datatype error = ValueError

definition is_int_space :: "char \<Rightarrow> bool" where
  "is_int_space c = (let n = (of_char c :: nat) in
     (9 \<le> n \<and> n \<le> 13) \<or> n = 32 \<or> n = 133 \<or> n = 160)"

fun int_body_ok :: "string \<Rightarrow> bool" where
  "int_body_ok [] = False"
| "int_body_ok [c] = is_decimal c"
| "int_body_ok (c # d # r) =
     (is_decimal c \<and> (if d = CHR ''_'' then int_body_ok r else int_body_ok (d # r)))"

definition digit_value :: "char \<Rightarrow> nat" where
  "digit_value c = of_char c - 48"

definition digits_value :: "string \<Rightarrow> nat" where
  "digits_value ds = foldl (\<lambda>acc c. 10 * acc + digit_value c) 0 ds"

definition py_int :: "string \<Rightarrow> error + int" where
  "py_int s =
     (let t = rev (dropWhile is_int_space (rev (dropWhile is_int_space s)));
          negative = (t \<noteq> [] \<and> hd t = CHR ''-'');
          body = (if t \<noteq> [] \<and> (hd t = CHR ''-'' \<or> hd t = CHR ''+'') then tl t else t)
      in if int_body_ok body
         then Inr ((if negative then - 1 else 1) * int (digits_value (filter is_decimal body)))
         else Inl ValueError)"

section \<open>Shared state, outbound messages and the gateway\<close>

text \<open>
  The two module-level containers and, for each identity, the entry \<^verbatim>\<open>user_ids\<close> of its
  \<^verbatim>\<open>context.user_data\<close> (\<open>None\<close> when the key is absent).
\<close>

record profile =
  username :: "string option"
  first_name :: string
  last_name :: string

record tg_user =
  uid :: int
  user_username :: "string option"
  user_first_name :: string
  user_last_name :: "string option"

record world =
  pending_approvals :: "int \<rightharpoonup> profile"
  approved_users :: "int set"
  user_data :: "int \<Rightarrow> string list option"

text \<open>
  The texts the handlers send, one constructor for each, with the parts that vary. An
  approval request carries the requester's identity, which also tags its two buttons
  (\<^verbatim>\<open>approve_<id>\<close> and \<^verbatim>\<open>reject_<id>\<close>); the administrator's confirmation carries the
  profile read from the pending requests (\<open>None\<close> for the empty dictionary).
\<close>

datatype message =
    Admin_menu
  | Payment_format_prompt
  | Approval_request int string string string
  | Request_sent
  | Config_error
  | Error_try_later
  | Error_restart
  | User_approved int "profile option"
  | User_rejected int "profile option"
  | Approved_notice
  | Rejected_notice
  | Admin_only
  | Ask_target_id
  | Invalid_user_id
  | Deep_link int
  | Format_instructions
  | No_ids_found
  | Found_ids nat string
  | Ask_amount_again
  | No_ids_stored
  | Formatted_output string
  | Format_more
  | Cancelled
  | Help_text bool

text \<open>
  The calls on the gateway: acknowledging a button press, editing the message the button
  belongs to, replying in the chat of the update (to its message, or to the message of its
  button press), and sending to a chat by identity.
\<close>

datatype call =
    Answer_callback
  | Edit_message message
  | Reply message
  | Reply_to_query message
  | Send_message int message

text \<open>
  The gateway decides for every call whether it is carried out or raises. A handler's
  result is the new state, the calls that were carried out, in order, and how the handler
  ended: it returned, it returned from its \<^verbatim>\<open>except Exception\<close> branch after logging the
  error, or the exception left the handler.
\<close>

type_synonym gateway = "call \<Rightarrow> bool"

datatype 'r outcome = Returned 'r | Caught 'r | Raised

datatype conv = WAITING_FOR_IDS | WAITING_FOR_AMOUNT | WAITING_FOR_USER_ID | END

text \<open>Calls made one after the other, up to the first that raises.\<close>

fun attempt :: "gateway \<Rightarrow> call list \<Rightarrow> call list \<times> bool" where
  "attempt gw [] = ([], True)"
| "attempt gw (c # cs) =
     (if gw c then (case attempt gw cs of (tr, ok) \<Rightarrow> (c # tr, ok)) else ([], False))"

text \<open>
  The shape shared by the handlers of \<^verbatim>\<open>bot.py\<close> that answer an error with a reply: the
  calls of the \<^verbatim>\<open>try\<close> body then the return value, or the logged error and the reply of
  the \<^verbatim>\<open>except\<close> branch, which can raise in its turn.
\<close>

definition failed :: "gateway \<Rightarrow> world \<Rightarrow> call list \<Rightarrow> message \<Rightarrow> 'r \<Rightarrow>
    world \<times> call list \<times> 'r outcome" where
  "failed gw w tr apology r_err =
     (if gw (Reply apology) then (w, tr @ [Reply apology], Caught r_err) else (w, tr, Raised))"

definition guarded :: "gateway \<Rightarrow> world \<Rightarrow> call list \<Rightarrow> 'r \<Rightarrow> message \<Rightarrow> 'r \<Rightarrow>
    world \<times> call list \<times> 'r outcome" where
  "guarded gw w cs r apology r_err =
     (case attempt gw cs of
        (tr, True) \<Rightarrow> (w, tr, Returned r)
      | (tr, False) \<Rightarrow> failed gw w tr apology r_err)"

text \<open>The same without a \<^verbatim>\<open>try\<close>, as in \<^verbatim>\<open>main.py\<close>.\<close>

definition unguarded :: "gateway \<Rightarrow> world \<Rightarrow> call list \<Rightarrow> 'r \<Rightarrow> world \<times> call list \<times> 'r outcome" where
  "unguarded gw w cs r =
     (case attempt gw cs of (tr, True) \<Rightarrow> (w, tr, Returned r) | (tr, False) \<Rightarrow> (w, tr, Raised))"

definition show_admin_menu :: "bool \<Rightarrow> call list" where
  "show_admin_menu callback_query =
     (if callback_query then [Reply_to_query Admin_menu] else [Reply Admin_menu])"

definition show_payment_format :: "bool \<Rightarrow> call list" where
  "show_payment_format callback_query =
     (if callback_query then [Reply_to_query Payment_format_prompt]
      else [Reply Payment_format_prompt])"

definition request_of :: "tg_user \<Rightarrow> message" where
  "request_of user =
     Approval_request (uid user)
       (case user_username user of None \<Rightarrow> ''No username'' | Some n \<Rightarrow> if n = [] then ''No username'' else n)
       (user_first_name user)
       (case user_last_name user of None \<Rightarrow> [] | Some n \<Rightarrow> n)"

definition store_request :: "tg_user \<Rightarrow> world \<Rightarrow> world" where
  "store_request user w =
     w\<lparr>pending_approvals := (pending_approvals w)(uid user \<mapsto>
         \<lparr>username = user_username user,
          first_name = user_first_name user,
          last_name = (case user_last_name user of None \<Rightarrow> [] | Some n \<Rightarrow> n)\<rparr>)\<rparr>"

section \<open>The handlers of \<^verbatim>\<open>bot.py\<close>\<close>

definition bot_start :: "int \<Rightarrow> gateway \<Rightarrow> tg_user \<Rightarrow> world \<Rightarrow> world \<times> call list \<times> unit outcome" where
  "bot_start ADMIN_ID gw user w =
     (if uid user = ADMIN_ID then
        guarded gw w (show_admin_menu False) () Error_try_later ()
      else if uid user \<in> approved_users w then
        (case attempt gw (show_payment_format False) of
           (tr, True) \<Rightarrow> (w, tr, Returned ())
         | (tr, False) \<Rightarrow> (w, tr, Caught ()))
      else
        guarded gw (store_request user w)
          [Send_message ADMIN_ID (request_of user), Reply Request_sent]
          () Error_try_later ())"

definition bot_handle_message_user ::
    "int \<Rightarrow> gateway \<Rightarrow> tg_user \<Rightarrow> world \<Rightarrow> world \<times> call list \<times> conv option outcome" where
  "bot_handle_message_user ADMIN_ID gw user w =
     (if uid user \<noteq> ADMIN_ID then
        (case attempt gw [Answer_callback, Edit_message Admin_only] of
           (tr, True) \<Rightarrow> (w, tr, Returned None)
         | (tr, False) \<Rightarrow> (w, tr, Caught (Some END)))
      else
        (case attempt gw [Answer_callback, Edit_message Ask_target_id] of
           (tr, True) \<Rightarrow> (w, tr, Returned (Some WAITING_FOR_USER_ID))
         | (tr, False) \<Rightarrow> (w, tr, Caught (Some END))))"

text \<open>\<^verbatim>\<open>str.isdigit()\<close>: at least one character, and every character a digit.\<close>

definition py_isdigit :: "string \<Rightarrow> bool" where
  "py_isdigit s = (s \<noteq> [] \<and> list_all is_digit s)"

definition bot_get_user_id_for_message ::
    "gateway \<Rightarrow> string \<Rightarrow> world \<Rightarrow> world \<times> call list \<times> conv outcome" where
  "bot_get_user_id_for_message gw text w =
     (let user_input = strip text in
      if \<not> py_isdigit user_input \<or> length user_input < 5 then
        guarded gw w [Reply Invalid_user_id] WAITING_FOR_USER_ID Error_restart END
      else
        (case py_int user_input of
           Inl e \<Rightarrow> failed gw w [] Error_restart END
         | Inr user_id \<Rightarrow>
             guarded gw w (Reply (Deep_link user_id) # show_admin_menu False)
               END Error_restart END))"

text \<open>
  The parse at the head of \<^verbatim>\<open>handle_approval\<close>: the split must give exactly two parts,
  and the second must convert.
\<close>

definition parse_decision :: "string \<Rightarrow> error + string \<times> int" where
  "parse_decision data =
     (case split_on CHR ''_'' data of
        [action, user_id] \<Rightarrow>
          (case py_int user_id of Inl e \<Rightarrow> Inl e | Inr n \<Rightarrow> Inr (action, n))
      | _ \<Rightarrow> Inl ValueError)"

definition pop_pending :: "int \<Rightarrow> world \<Rightarrow> world" where
  "pop_pending user_id w = w\<lparr>pending_approvals := (pending_approvals w)(user_id := None)\<rparr>"

text \<open>A notification inside its own \<^verbatim>\<open>try\<close>: carried out, or logged as a warning.\<close>

definition notify :: "gateway \<Rightarrow> call \<Rightarrow> call list" where
  "notify gw c = (if gw c then [c] else [])"

definition bot_handle_approval ::
    "gateway \<Rightarrow> string \<Rightarrow> world \<Rightarrow> world \<times> call list \<times> unit outcome" where
  "bot_handle_approval gw data w =
     (if \<not> gw Answer_callback then (w, [], Caught ())
      else
        (case parse_decision data of
           Inl e \<Rightarrow> (w, [Answer_callback], Caught ())
         | Inr (action, user_id) \<Rightarrow>
             if action = ''approve'' then
               (let w1 = w\<lparr>approved_users := insert user_id (approved_users w)\<rparr>;
                    edit = Edit_message (User_approved user_id (pending_approvals w1 user_id))
                in if \<not> gw edit then (w1, [Answer_callback], Caught ())
                   else (pop_pending user_id w1,
                         [Answer_callback, edit] @ notify gw (Send_message user_id Approved_notice),
                         Returned ()))
             else if action = ''reject'' then
               (let edit = Edit_message (User_rejected user_id (pending_approvals w user_id))
                in if \<not> gw edit then (w, [Answer_callback], Caught ())
                   else (pop_pending user_id w,
                         [Answer_callback, edit] @ notify gw (Send_message user_id Rejected_notice),
                         Returned ()))
             else (pop_pending user_id w, [Answer_callback], Returned ())))"

definition bot_handle_payment_format :: "gateway \<Rightarrow> world \<Rightarrow> world \<times> call list \<times> conv outcome" where
  "bot_handle_payment_format gw w =
     (case attempt gw [Answer_callback, Edit_message Format_instructions] of
        (tr, True) \<Rightarrow> (w, tr, Returned WAITING_FOR_IDS)
      | (tr, False) \<Rightarrow> (w, tr, Caught END))"

definition bot_process_user_ids ::
    "gateway \<Rightarrow> tg_user \<Rightarrow> string \<Rightarrow> world \<Rightarrow> world \<times> call list \<times> conv outcome" where
  "bot_process_user_ids gw user message_text w =
     (let user_ids = re_findall message_text in
      if user_ids = [] then
        guarded gw w [Reply No_ids_found] WAITING_FOR_IDS Error_restart END
      else
        (let unique_ids = dedup_loop user_ids [] {};
             w1 = w\<lparr>user_data := (user_data w)(uid user := Some unique_ids)\<rparr>;
             ids_formatted = join [newline] unique_ids
         in guarded gw w1 [Reply (Found_ids (length unique_ids) ids_formatted)]
              WAITING_FOR_AMOUNT Error_restart END))"

definition clear_user_data :: "tg_user \<Rightarrow> world \<Rightarrow> world" where
  "clear_user_data user w = w\<lparr>user_data := (user_data w)(uid user := None)\<rparr>"

definition bot_process_amount ::
    "int \<Rightarrow> gateway \<Rightarrow> tg_user \<Rightarrow> string \<Rightarrow> world \<Rightarrow> world \<times> call list \<times> conv outcome" where
  "bot_process_amount ADMIN_ID gw user text w =
     (let amount = strip text in
      if amount = [] then
        guarded gw w [Reply Ask_amount_again] WAITING_FOR_AMOUNT Error_restart END
      else
        (let user_ids = (case user_data w (uid user) of None \<Rightarrow> [] | Some ids \<Rightarrow> ids) in
         if user_ids = [] then
           guarded gw w [Reply No_ids_stored] END Error_restart END
         else
           (let final_output = OutputFormatter user_ids amount;
                result = Reply (Formatted_output final_output)
            in if \<not> gw result then failed gw w [] Error_restart END
               else
                 (let w1 = clear_user_data user w;
                      follow_up = (if uid user = ADMIN_ID then show_admin_menu False
                                   else [Reply Format_more])
                  in case attempt gw follow_up of
                       (tr, True) \<Rightarrow> (w1, result # tr, Returned END)
                     | (tr, False) \<Rightarrow> failed gw w1 (result # tr) Error_restart END))))"

definition bot_cancel :: "gateway \<Rightarrow> tg_user \<Rightarrow> world \<Rightarrow> world \<times> call list \<times> conv outcome" where
  "bot_cancel gw user w =
     (let w1 = clear_user_data user w in
      if gw (Reply Cancelled) then (w1, [Reply Cancelled], Returned END)
      else (w1, [], Caught END))"

definition bot_help_command ::
    "int \<Rightarrow> gateway \<Rightarrow> tg_user \<Rightarrow> world \<Rightarrow> world \<times> call list \<times> unit outcome" where
  "bot_help_command ADMIN_ID gw user w =
     (let help = Reply (Help_text (uid user = ADMIN_ID)) in
      if gw help then (w, [help], Returned ()) else (w, [], Caught ()))"

definition bot_error_handler ::
    "gateway \<Rightarrow> tg_user option \<Rightarrow> world \<Rightarrow> world \<times> call list \<times> unit outcome" where
  "bot_error_handler gw user w =
     (case user of
        None \<Rightarrow> (w, [], Returned ())
      | Some u \<Rightarrow> (w, notify gw (Send_message (uid u) Error_try_later), Returned ()))"

section \<open>The handlers of \<^verbatim>\<open>main.py\<close>\<close>

definition main_start :: "int \<Rightarrow> gateway \<Rightarrow> tg_user \<Rightarrow> world \<Rightarrow> world \<times> call list \<times> unit outcome" where
  "main_start ADMIN_ID gw user w =
     (if uid user \<in> approved_users w then
        unguarded gw w (show_payment_format False) ()
      else
        (let w1 = store_request user w;
             request = Send_message ADMIN_ID (request_of user)
         in if gw request then
              (case attempt gw [Reply Request_sent] of
                 (tr, True) \<Rightarrow> (w1, request # tr, Returned ())
               | (tr, False) \<Rightarrow> (w1, request # tr, Raised))
            else
              (case attempt gw [Reply Config_error] of
                 (tr, True) \<Rightarrow> (w1, tr, Caught ())
               | (tr, False) \<Rightarrow> (w1, tr, Raised))))"

definition main_handle_approval ::
    "gateway \<Rightarrow> string \<Rightarrow> world \<Rightarrow> world \<times> call list \<times> unit outcome" where
  "main_handle_approval gw data w =
     (if \<not> gw Answer_callback then (w, [], Raised)
      else
        (case parse_decision data of
           Inl e \<Rightarrow> (w, [Answer_callback], Raised)
         | Inr (action, user_id) \<Rightarrow>
             if action = ''approve'' then
               (let w1 = w\<lparr>approved_users := insert user_id (approved_users w)\<rparr>;
                    edit = Edit_message (User_approved user_id (pending_approvals w1 user_id))
                in if \<not> gw edit then (w1, [Answer_callback], Raised)
                   else (pop_pending user_id w1,
                         [Answer_callback, edit] @ notify gw (Send_message user_id Approved_notice),
                         Returned ()))
             else if action = ''reject'' then
               (let edit = Edit_message (User_rejected user_id (pending_approvals w user_id))
                in if \<not> gw edit then (w, [Answer_callback], Raised)
                   else (pop_pending user_id w,
                         [Answer_callback, edit] @ notify gw (Send_message user_id Rejected_notice),
                         Returned ()))
             else (pop_pending user_id w, [Answer_callback], Returned ())))"

definition main_handle_payment_format :: "gateway \<Rightarrow> world \<Rightarrow> world \<times> call list \<times> conv outcome" where
  "main_handle_payment_format gw w =
     unguarded gw w [Answer_callback, Edit_message Format_instructions] WAITING_FOR_IDS"

definition main_process_user_ids ::
    "gateway \<Rightarrow> tg_user \<Rightarrow> string \<Rightarrow> world \<Rightarrow> world \<times> call list \<times> conv outcome" where
  "main_process_user_ids gw user message_text w =
     (let user_ids = re_findall message_text in
      if user_ids = [] then
        unguarded gw w [Reply No_ids_found] WAITING_FOR_IDS
      else
        (let unique_ids = dedup_loop user_ids [] {};
             w1 = w\<lparr>user_data := (user_data w)(uid user := Some unique_ids)\<rparr>;
             ids_formatted = join [newline] unique_ids
         in unguarded gw w1 [Reply (Found_ids (length unique_ids) ids_formatted)]
              WAITING_FOR_AMOUNT))"

definition main_process_amount ::
    "gateway \<Rightarrow> tg_user \<Rightarrow> string \<Rightarrow> world \<Rightarrow> world \<times> call list \<times> conv outcome" where
  "main_process_amount gw user text w =
     (let amount = strip text in
      if amount = [] then
        unguarded gw w [Reply Ask_amount_again] WAITING_FOR_AMOUNT
      else
        (let user_ids = (case user_data w (uid user) of None \<Rightarrow> [] | Some ids \<Rightarrow> ids) in
         if user_ids = [] then
           unguarded gw w [Reply No_ids_stored] END
         else
           (let final_output = OutputFormatter user_ids amount;
                result = Reply (Formatted_output final_output)
            in if \<not> gw result then (w, [], Raised)
               else
                 (let w1 = clear_user_data user w in
                  case attempt gw [Reply Format_more] of
                    (tr, True) \<Rightarrow> (w1, result # tr, Returned END)
                  | (tr, False) \<Rightarrow> (w1, result # tr, Raised)))))"

definition main_cancel :: "gateway \<Rightarrow> tg_user \<Rightarrow> world \<Rightarrow> world \<times> call list \<times> conv outcome" where
  "main_cancel gw user w = unguarded gw (clear_user_data user w) [Reply Cancelled] END"

definition main_help_command :: "gateway \<Rightarrow> world \<Rightarrow> world \<times> call list \<times> unit outcome" where
  "main_help_command gw w = unguarded gw w [Reply (Help_text False)] ()"

section \<open>The operations of the two programs\<close>

text \<open>
  One event for each handler registered by \<^verbatim>\<open>main()\<close>, with what the handler reads from
  the update: the commands, the button presses and the texts received in a conversation
  state, and for \<^verbatim>\<open>bot.py\<close> the error handler. \<^verbatim>\<open>main.py\<close> registers no handler for the
  administrator's message feature nor for errors; those events leave its state as it is.
\<close>

datatype event =
    Start tg_user
  | Help tg_user
  | Cancel tg_user
  | Decision string
  | Payment_format
  | Message_user tg_user
  | Ids_text tg_user string
  | Amount_text tg_user string
  | Target_text string
  | Failure "tg_user option"

fun bot_step :: "int \<Rightarrow> gateway \<Rightarrow> event \<Rightarrow> world \<Rightarrow> world" where
  "bot_step ADMIN_ID gw (Start user) w = fst (bot_start ADMIN_ID gw user w)"
| "bot_step ADMIN_ID gw (Help user) w = fst (bot_help_command ADMIN_ID gw user w)"
| "bot_step ADMIN_ID gw (Cancel user) w = fst (bot_cancel gw user w)"
| "bot_step ADMIN_ID gw (Decision data) w = fst (bot_handle_approval gw data w)"
| "bot_step ADMIN_ID gw Payment_format w = fst (bot_handle_payment_format gw w)"
| "bot_step ADMIN_ID gw (Message_user user) w = fst (bot_handle_message_user ADMIN_ID gw user w)"
| "bot_step ADMIN_ID gw (Ids_text user text) w = fst (bot_process_user_ids gw user text w)"
| "bot_step ADMIN_ID gw (Amount_text user text) w = fst (bot_process_amount ADMIN_ID gw user text w)"
| "bot_step ADMIN_ID gw (Target_text text) w = fst (bot_get_user_id_for_message gw text w)"
| "bot_step ADMIN_ID gw (Failure user) w = fst (bot_error_handler gw user w)"

fun main_step :: "int \<Rightarrow> gateway \<Rightarrow> event \<Rightarrow> world \<Rightarrow> world" where
  "main_step ADMIN_ID gw (Start user) w = fst (main_start ADMIN_ID gw user w)"
| "main_step ADMIN_ID gw (Help user) w = fst (main_help_command gw w)"
| "main_step ADMIN_ID gw (Cancel user) w = fst (main_cancel gw user w)"
| "main_step ADMIN_ID gw (Decision data) w = fst (main_handle_approval gw data w)"
| "main_step ADMIN_ID gw Payment_format w = fst (main_handle_payment_format gw w)"
| "main_step ADMIN_ID gw (Ids_text user text) w = fst (main_process_user_ids gw user text w)"
| "main_step ADMIN_ID gw (Amount_text user text) w = fst (main_process_amount gw user text w)"
| "main_step ADMIN_ID gw (Message_user user) w = w"
| "main_step ADMIN_ID gw (Target_text text) w = w"
| "main_step ADMIN_ID gw (Failure user) w = w"

text \<open>An event is an approve decision for an identity when its action string parses so.\<close>

definition approves :: "event \<Rightarrow> int \<Rightarrow> bool" where
  "approves ev i = (case ev of Decision data \<Rightarrow> parse_decision data = Inr (''approve'', i) | _ \<Rightarrow> False)"

text \<open>A run: the events handled one after the other, each with its own gateway behaviour.\<close>

fun bot_run :: "int \<Rightarrow> (gateway \<times> event) list \<Rightarrow> world \<Rightarrow> world" where
  "bot_run ADMIN_ID [] w = w"
| "bot_run ADMIN_ID ((gw, ev) # rest) w = bot_run ADMIN_ID rest (bot_step ADMIN_ID gw ev w)"

fun main_run :: "int \<Rightarrow> (gateway \<times> event) list \<Rightarrow> world \<Rightarrow> world" where
  "main_run ADMIN_ID [] w = w"
| "main_run ADMIN_ID ((gw, ev) # rest) w = main_run ADMIN_ID rest (main_step ADMIN_ID gw ev w)"

text \<open>The state at process start: both containers empty, no session data.\<close>

definition initial :: world where
  "initial = \<lparr>pending_approvals = Map.empty, approved_users = {}, user_data = (\<lambda>i. None)\<rparr>"

section \<open>The specification of the identifier extractor\<close>

text \<open>
  The specification's words, for comparison with the code: the text is cut into its maximal
  runs of token characters; the runs that consist of decimal digits only and are at least
  five characters long are kept; a run that occurs again is dropped, so that the first
  occurrences remain in their order. The class of token characters is a parameter: the
  specification names the alphanumeric characters.
\<close>

fun runs_from :: "(char \<Rightarrow> bool) \<Rightarrow> string \<Rightarrow> string \<Rightarrow> string list" where
  "runs_from P cur [] = (if cur = [] then [] else [cur])"
| "runs_from P cur (x # xs) =
     (if P x then runs_from P (cur @ [x]) xs
      else (if cur = [] then [] else [cur]) @ runs_from P [] xs)"

definition maximal_runs :: "(char \<Rightarrow> bool) \<Rightarrow> string \<Rightarrow> string list" where
  "maximal_runs P text = runs_from P [] text"

fun first_occurrences :: "'a list \<Rightarrow> 'a list" where
  "first_occurrences [] = []"
| "first_occurrences (x # xs) = x # first_occurrences (filter (\<lambda>y. y \<noteq> x) xs)"

definition digit_run :: "string \<Rightarrow> bool" where
  "digit_run t = (list_all is_decimal t \<and> 5 \<le> length t)"

definition spec_extract :: "(char \<Rightarrow> bool) \<Rightarrow> string \<Rightarrow> string list" where
  "spec_extract token_char text =
     first_occurrences (filter digit_run (maximal_runs token_char text))"

section \<open>The dispatch pattern of the decision buttons\<close>

text \<open>
  \<^verbatim>\<open>^(approve|reject)_\d+$\<close> under \<^verbatim>\<open>re.match\<close>: one of the two words, an underscore, a
  greedy run of at least one decimal digit that gives characters back until the closing
  anchor holds. \<^verbatim>\<open>$\<close> holds at the end of the string and also just before a newline that
  ends it.
\<close>

definition end_anchor :: "string \<Rightarrow> bool" where
  "end_anchor rest = (rest = [] \<or> rest = [newline])"

fun digits_then_end :: "string \<Rightarrow> nat \<Rightarrow> bool" where
  "digits_then_end s 0 = False"
| "digits_then_end s (Suc k) = (end_anchor (drop (Suc k) s) \<or> digits_then_end s k)"

definition tag_then_end :: "string \<Rightarrow> bool" where
  "tag_then_end s =
     (case s of
        [] \<Rightarrow> False
      | c # ds \<Rightarrow> c = CHR ''_'' \<and> digits_then_end ds (length (takeWhile is_decimal ds)))"

definition decision_pattern :: "string \<Rightarrow> bool" where
  "decision_pattern data =
     ((take 7 data = ''approve'' \<and> tag_then_end (drop 7 data)) \<or>
      (take 6 data = ''reject'' \<and> tag_then_end (drop 6 data)))"

section \<open>Configuration at process start\<close>

text \<open>
  The environment is a dictionary of strings. Loading ends the process with an exit status
  or gives the configuration; \<^verbatim>\<open>main()\<close> then builds the application from the token and
  starts polling. Whether the library accepts a token when it builds the application is
  not part of the repository and is a parameter. An exception that nothing catches ends
  the process with status 1, as \<^verbatim>\<open>sys.exit(1)\<close> does.
\<close>

record config =
  BOT_TOKEN :: "string option"
  ADMIN_ID :: int
  OWNER_USERNAME :: string

datatype process = Exited nat | Polling config

definition owner_of :: "(string \<rightharpoonup> string) \<Rightarrow> string" where
  "owner_of environ = (case environ ''OWNER_USERNAME'' of None \<Rightarrow> ''@dtxzahid'' | Some v \<Rightarrow> v)"

definition bot_config :: "(string \<rightharpoonup> string) \<Rightarrow> nat + config" where
  "bot_config environ =
     (case environ ''BOT_TOKEN'' of
        None \<Rightarrow> Inl 1
      | Some token \<Rightarrow>
          if token = [] then Inl 1
          else
            (case environ ''ADMIN_ID'' of
               None \<Rightarrow> Inl 1
             | Some admin \<Rightarrow>
                 if admin = [] then Inl 1
                 else
                   (case py_int admin of
                      Inl e \<Rightarrow> Inl 1
                    | Inr n \<Rightarrow>
                        Inr \<lparr>BOT_TOKEN = Some token, ADMIN_ID = n,
                             OWNER_USERNAME = owner_of environ\<rparr>)))"

definition main_config :: "(string \<rightharpoonup> string) \<Rightarrow> nat + config" where
  "main_config environ =
     (case (case environ ''ADMIN_ID'' of None \<Rightarrow> Inr 0 | Some admin \<Rightarrow> py_int admin) of
        Inl e \<Rightarrow> Inl 1
      | Inr n \<Rightarrow>
          Inr \<lparr>BOT_TOKEN = environ ''BOT_TOKEN'', ADMIN_ID = n,
               OWNER_USERNAME = owner_of environ\<rparr>)"

definition bot_process :: "(string option \<Rightarrow> bool) \<Rightarrow> (string \<rightharpoonup> string) \<Rightarrow> process" where
  "bot_process builds environ =
     (case bot_config environ of
        Inl status \<Rightarrow> Exited status
      | Inr cfg \<Rightarrow> if builds (BOT_TOKEN cfg) then Polling cfg else Exited 1)"

definition main_process :: "(string option \<Rightarrow> bool) \<Rightarrow> (string \<rightharpoonup> string) \<Rightarrow> process" where
  "main_process builds environ =
     (case main_config environ of
        Inl status \<Rightarrow> Exited status
      | Inr cfg \<Rightarrow> if builds (BOT_TOKEN cfg) then Polling cfg else Exited 1)"

section \<open>Sample gateways and users\<close>

text \<open>
  A gateway that carries out every call, one that carries out everything but the sends to
  a chat by identity (a user who blocked the bot or never opened a chat with it), one that
  refuses every edit of a message, one that refuses the acknowledgement of a button press,
  and a user with a given identity, for the concrete runs below.
\<close>

definition reliable :: gateway where
  "reliable c = True"

definition unreachable_users :: gateway where
  "unreachable_users c = (case c of Send_message i m \<Rightarrow> False | _ \<Rightarrow> True)"



definition someone :: "int \<Rightarrow> tg_user" where
  "someone i = \<lparr>uid = i, user_username = None, user_first_name = ''Ann'', user_last_name = None\<rparr>"

section \<open>Properties of the output formatter\<close>

lemma format_loop_map:
  "format_loop ids amount acc = acc @ map (\<lambda>t. spec_line t amount) ids"
  by (induction ids arbitrary: acc) (simp_all add: spec_line_def)

lemma join_Cons: "join sep (x # xs) = x @ concat (map (\<lambda>y. sep @ y) xs)"
  by (induction xs arbitrary: x) simp_all

lemma split_on_append:
  "sep \<notin> set x \<Longrightarrow> split_on sep (x @ sep # r) = x # split_on sep r"
  by (induction x) (auto split: list.splits)

lemma split_on_plain: "sep \<notin> set x \<Longrightarrow> split_on sep x = [x]"
  by (induction x) (auto split: list.splits)

lemma split_on_join:
  "xs \<noteq> [] \<Longrightarrow> \<forall>x\<in>set xs. sep \<notin> set x \<Longrightarrow> split_on sep (join [sep] xs) = xs"
proof (induction "[sep]" xs rule: join.induct)
  case 1
  then show ?case by simp
next
  case (2 x)
  then show ?case by (simp add: split_on_plain)
next
  case (3 x y ys)
  then show ?case by (simp add: split_on_append)
qed

text \<open>
  C2. For a non-empty sequence of tokens and any amount string, the formatter's output is
  the line of the first token followed, for each further token in order, by one newline and
  that token's line, with nothing after the last line; each line is the token, a space and
  the amount. When neither the amount nor a token contains a newline, splitting the output
  at newlines gives back exactly one line per token, in input order. In particular the
  tokens 111 and 222 with the amount 2.1 give the two lines \<^verbatim>\<open>111 2.1\<close> and \<^verbatim>\<open>222 2.1\<close>.
\<close>

theorem OutputFormatter_lines:
  assumes "tokens \<noteq> []"
  shows "OutputFormatter tokens amount =
           spec_line (hd tokens) amount @
           concat (map (\<lambda>t. newline # spec_line t amount) (tl tokens))
         \<and> (newline \<notin> set amount \<and> (\<forall>t\<in>set tokens. newline \<notin> set t) \<longrightarrow>
              split_on newline (OutputFormatter tokens amount) =
              map (\<lambda>t. spec_line t amount) tokens)"
proof -
  from assms obtain t ts where ts: "tokens = t # ts"
    by (cases tokens) auto
  have lines: "format_loop tokens amount [] = map (\<lambda>t. spec_line t amount) tokens"
    by (simp add: format_loop_map)
  have first: "OutputFormatter tokens amount =
           spec_line (hd tokens) amount @
           concat (map (\<lambda>t. newline # spec_line t amount) (tl tokens))"
    by (simp add: OutputFormatter_def format_loop_map ts join_Cons comp_def)
  have second: "split_on newline (OutputFormatter tokens amount) =
              map (\<lambda>t. spec_line t amount) tokens"
    if "newline \<notin> set amount" and "\<forall>t\<in>set tokens. newline \<notin> set t"
  proof -
    have "\<forall>x\<in>set (map (\<lambda>t. spec_line t amount) tokens). newline \<notin> set x"
      using that by (auto simp: spec_line_def newline_def)
    moreover have "map (\<lambda>t. spec_line t amount) tokens \<noteq> []"
      using assms by simp
    ultimately show ?thesis
      unfolding OutputFormatter_def lines by (rule split_on_join [rotated])
  qed
  from first second show ?thesis by blast
qed

theorem OutputFormatter_lines_witness:
  "[''111'', ''222''] \<noteq> [] \<and>
   OutputFormatter [''111'', ''222''] ''2.1'' = ''111 2.1'' @ [newline] @ ''222 2.1'' \<and>
   split_on newline (OutputFormatter [''111'', ''222''] ''2.1'') = [''111 2.1'', ''222 2.1'']"
  using OutputFormatter_lines [of "[''111'', ''222'']" "''2.1''"]
  by (simp add: spec_line_def newline_def)

section \<open>Properties of the identifier extractor\<close>

lemma is_decimal_word: "is_decimal c \<Longrightarrow> is_word c"
  by (simp add: is_decimal_def is_word_def is_alnum_def Let_def)

lemma runs_from_split:
  "runs_from P cur xs =
     (if cur @ takeWhile P xs = [] then [] else [cur @ takeWhile P xs]) @
     (case dropWhile P xs of [] \<Rightarrow> [] | y # r \<Rightarrow> runs_from P [] r)"
  by (induction xs arbitrary: cur) simp_all

lemma backtrack_short: "n < 5 \<Longrightarrow> backtrack p xs n = None"
  by (cases n) simp_all

lemma backtrack_none:
  "(\<And>k. 0 < k \<Longrightarrow> k \<le> n \<Longrightarrow> \<not> is_boundary (prev_after p (take k xs)) (hd_opt (drop k xs)))
   \<Longrightarrow> backtrack p xs n = None"
  by (induction n) simp_all

lemma prev_after_snoc: "prev_after p (ys @ [y]) = Some y"
  by (induction ys arbitrary: p) simp_all

lemma prev_after_last: "ys \<noteq> [] \<Longrightarrow> prev_after p ys = Some (last ys)"
  by (induction ys arbitrary: p) simp_all

lemma findall_in_word:
  "word_side p \<Longrightarrow>
   findall p xs = (case dropWhile is_word xs of [] \<Rightarrow> [] | y # r \<Rightarrow> findall (Some y) r)"
proof (induction xs arbitrary: p)
  case Nil
  then show ?case
    by (subst findall.simps) (simp add: match_here_def)
next
  case (Cons x r)
  show ?case
  proof (cases "is_word x")
    case True
    with Cons.prems have "match_here p (x # r) = None"
      by (simp add: match_here_def is_boundary_def)
    then have "findall p (x # r) = findall (Some x) r"
      by (subst findall.simps) simp
    also have "\<dots> = (case dropWhile is_word r of [] \<Rightarrow> [] | y # r' \<Rightarrow> findall (Some y) r')"
      using True by (intro Cons.IH) simp
    finally show ?thesis using True by simp
  next
    case False
    then have "\<not> is_decimal x" using is_decimal_word by blast
    then have "match_here p (x # r) = None"
      by (simp add: match_here_def)
    then have "findall p (x # r) = findall (Some x) r"
      by (subst findall.simps) simp
    then show ?thesis using False by simp
  qed
qed


lemma takeWhile_decimal_word:
  "list_all is_decimal (takeWhile is_word xs) \<Longrightarrow> takeWhile is_decimal xs = takeWhile is_word xs"
  by (induction xs) (auto simp: is_decimal_word)

lemma length_takeWhile_decimal_word:
  "length (takeWhile is_decimal xs) \<le> length (takeWhile is_word xs)"
  by (induction xs) (auto simp: is_decimal_word)

lemma word_side_hd_dropWhile: "\<not> word_side (hd_opt (dropWhile is_word xs))"
  by (induction xs) simp_all

lemma nth_takeWhile_word: "i < length (takeWhile is_word xs) \<Longrightarrow> is_word (xs ! i)"
  by (metis nth_mem set_takeWhileD takeWhile_nth)

lemma hd_opt_drop: "k < length xs \<Longrightarrow> hd_opt (drop k xs) = Some (xs ! k)"
  by (simp add: Cons_nth_drop_Suc [symmetric])

lemma prev_after_take:
  "0 < k \<Longrightarrow> k \<le> length xs \<Longrightarrow> prev_after p (take k xs) = Some (xs ! (k - 1))"
proof -
  assume k: "0 < k" "k \<le> length xs"
  then have ne: "take k xs \<noteq> []" by auto
  have "last (take k xs) = xs ! (k - 1)"
    using k ne by (simp add: last_conv_nth min_absorb2)
  with ne show ?thesis by (simp add: prev_after_last)
qed

lemma no_boundary_inside:
  assumes "0 < k" and "k < length (takeWhile is_word xs)"
  shows "\<not> is_boundary (prev_after p (take k xs)) (hd_opt (drop k xs))"
proof -
  have le: "length (takeWhile is_word xs) \<le> length xs"
    by (rule length_takeWhile_le)
  have "prev_after p (take k xs) = Some (xs ! (k - 1))"
    using assms le by (intro prev_after_take) simp_all
  moreover have "hd_opt (drop k xs) = Some (xs ! k)"
    using assms le by (intro hd_opt_drop) simp
  moreover have "is_word (xs ! (k - 1))" and "is_word (xs ! k)"
    using assms by (simp_all add: nth_takeWhile_word)
  ultimately show ?thesis
    by (simp add: is_boundary_def)
qed

lemma match_here_digit_run:
  assumes p: "\<not> word_side p" and good: "digit_run (takeWhile is_word xs)"
  shows "match_here p xs = Some (length (takeWhile is_word xs))"
proof -
  let ?w = "takeWhile is_word xs"
  from good have len: "5 \<le> length ?w" and dec: "list_all is_decimal ?w"
    by (simp_all add: digit_run_def)
  then have ne: "?w \<noteq> []" by auto
  then obtain x r where xs: "xs = x # r" and x: "is_word x"
    by (cases xs) (auto split: if_splits)
  have start: "is_boundary p (hd_opt xs)"
    using p x by (simp add: xs is_boundary_def)
  have d: "takeWhile is_decimal xs = ?w"
    using dec by (rule takeWhile_decimal_word)
  have tk: "take (length ?w) xs = ?w"
    by (simp add: takeWhile_eq_take [symmetric])
  have dr: "drop (length ?w) xs = dropWhile is_word xs"
    by (simp add: dropWhile_eq_drop [symmetric])
  have "is_word (last ?w)"
    using ne by (meson last_in_set set_takeWhileD)
  then have stop: "is_boundary (prev_after p (take (length ?w) xs)) (hd_opt (drop (length ?w) xs))"
    using ne by (simp add: tk dr prev_after_last is_boundary_def word_side_hd_dropWhile)
  from len obtain n where n: "length ?w = Suc n"
    by (cases "length ?w") simp_all
  have "backtrack p xs (length ?w) = Some (length ?w)"
    using len stop unfolding n by simp
  with start d show ?thesis
    by (simp add: match_here_def)
qed

lemma match_here_no_digit_run:
  assumes "\<not> digit_run (takeWhile is_word xs)"
  shows "match_here p xs = None"
proof (cases "length (takeWhile is_decimal xs) < 5")
  case True
  then show ?thesis
    by (simp add: match_here_def backtrack_short)
next
  case False
  let ?d = "takeWhile is_decimal xs" and ?w = "takeWhile is_word xs"
  have "list_all is_decimal ?d"
    by (simp add: list_all_iff) (meson set_takeWhileD)
  with False assms have "?d \<noteq> ?w"
    by (auto simp: digit_run_def)
  moreover have "?d = take (length ?d) xs" and "?w = take (length ?w) xs"
    by (simp_all add: takeWhile_eq_take [symmetric])
  ultimately have "length ?d \<noteq> length ?w"
    by metis
  with length_takeWhile_decimal_word [of xs] have "length ?d < length ?w"
    by simp
  then have "backtrack p xs (length ?d) = None"
    by (intro backtrack_none no_boundary_inside) simp_all
  then show ?thesis
    by (simp add: match_here_def)
qed

lemma findall_at_edge:
  assumes "\<not> word_side p"
  shows "findall p xs =
     (if digit_run (takeWhile is_word xs) then [takeWhile is_word xs] else []) @
     (case dropWhile is_word xs of [] \<Rightarrow> [] | y # r \<Rightarrow> findall (Some y) r)"
proof (cases "digit_run (takeWhile is_word xs)")
  case True
  let ?w = "takeWhile is_word xs"
  from True have ne: "?w \<noteq> []"
    by (auto simp: digit_run_def)
  have m: "match_here p xs = Some (length ?w)"
    using assms True by (rule match_here_digit_run)
  have tk: "take (length ?w) xs = ?w"
    by (simp add: takeWhile_eq_take [symmetric])
  have dr: "drop (length ?w) xs = dropWhile is_word xs"
    by (simp add: dropWhile_eq_drop [symmetric])
  have "is_word (last ?w)"
    using ne by (meson last_in_set set_takeWhileD)
  then have side: "word_side (prev_after p ?w)"
    using ne by (simp add: prev_after_last)
  have "findall p xs = ?w # findall (prev_after p ?w) (dropWhile is_word xs)"
    by (subst findall.simps) (simp add: m tk dr)
  also have "findall (prev_after p ?w) (dropWhile is_word xs) =
      (case dropWhile is_word (dropWhile is_word xs) of [] \<Rightarrow> [] | y # r \<Rightarrow> findall (Some y) r)"
    using side by (rule findall_in_word)
  finally show ?thesis
    using True by (simp add: dropWhile_idem)
next
  case False
  then have m: "match_here p xs = None"
    by (rule match_here_no_digit_run)
  show ?thesis
  proof (cases xs)
    case Nil
    with m False show ?thesis
      by (subst findall.simps) simp
  next
    case (Cons x r)
    have step: "findall p xs = findall (Some x) r"
      using m unfolding Cons by (subst findall.simps) simp
    show ?thesis
    proof (cases "is_word x")
      case True
      then have "findall (Some x) r =
          (case dropWhile is_word r of [] \<Rightarrow> [] | y # r' \<Rightarrow> findall (Some y) r')"
        by (intro findall_in_word) simp
      with step False True show ?thesis
        by (simp add: Cons)
    next
      case nw: False
      with step False show ?thesis
        by (simp add: Cons)
    qed
  qed
qed

lemma findall_runs:
  "\<not> word_side p \<Longrightarrow> findall p xs = filter digit_run (runs_from is_word [] xs)"
proof (induction xs arbitrary: p rule: length_induct)
  case (1 xs)
  have rest: "(case dropWhile is_word xs of [] \<Rightarrow> [] | y # r \<Rightarrow> findall (Some y) r) =
      (case dropWhile is_word xs of [] \<Rightarrow> [] | y # r \<Rightarrow> filter digit_run (runs_from is_word [] r))"
  proof (cases "dropWhile is_word xs")
    case Nil
    show ?thesis unfolding Nil by simp
  next
    case (Cons y r)
    then have "\<not> is_word y"
      by (metis hd_dropWhile list.sel(1) list.distinct(1))
    moreover have "length r < length xs"
      using Cons length_dropWhile_le [of is_word xs] by simp
    ultimately have "findall (Some y) r = filter digit_run (runs_from is_word [] r)"
      using "1.IH" by simp
    with Cons show ?thesis by simp
  qed
  have head: "filter digit_run (if w = [] then [] else [w]) = (if digit_run w then [w] else [])" for w
    by (auto simp: digit_run_def)
  have tail: "filter digit_run (case l of [] \<Rightarrow> [] | y # r \<Rightarrow> f r) =
      (case l of [] \<Rightarrow> [] | y # r \<Rightarrow> filter digit_run (f r))" for l :: string and f
    by (cases l) simp_all
  have "filter digit_run (runs_from is_word [] xs) =
      (if digit_run (takeWhile is_word xs) then [takeWhile is_word xs] else []) @
      (case dropWhile is_word xs of [] \<Rightarrow> [] | y # r \<Rightarrow> filter digit_run (runs_from is_word [] r))"
    by (subst runs_from_split) (simp only: filter_append append_Nil head tail)
  with rest findall_at_edge [OF "1.prems", of xs] show ?case
    by simp
qed

lemma re_findall_runs: "re_findall text = filter digit_run (maximal_runs is_word text)"
  by (simp add: re_findall_def maximal_runs_def findall_runs)

lemma dedup_loop_first_occurrences:
  "dedup_loop xs acc seen = acc @ first_occurrences (filter (\<lambda>x. x \<notin> seen) xs)"
proof (induction xs arbitrary: acc seen)
  case Nil
  then show ?case by simp
next
  case (Cons u rest)
  have "filter (\<lambda>y. y \<noteq> u) (filter (\<lambda>x. x \<notin> seen) rest) = filter (\<lambda>x. x \<notin> insert u seen) rest"
    by (induction rest) auto
  with Cons show ?case by simp
qed

lemma set_first_occurrences: "set (first_occurrences xs) = set xs"
  by (induction xs rule: first_occurrences.induct) auto

lemma distinct_first_occurrences: "distinct (first_occurrences xs)"
  by (induction xs rule: first_occurrences.induct) (auto simp: set_first_occurrences)

lemma IdentifierExtractor_first: "IdentifierExtractor text = first_occurrences (re_findall text)"
  by (simp add: IdentifierExtractor_def Let_def dedup_loop_first_occurrences)

lemma IdentifierExtractor_spec_extract: "IdentifierExtractor text = spec_extract is_word text"
  by (simp add: IdentifierExtractor_first spec_extract_def re_findall_runs)

lemma spec_extract_digit_runs: "t \<in> set (spec_extract P text) \<Longrightarrow> digit_run t"
  by (simp add: spec_extract_def set_first_occurrences)

lemma filter_other: "a \<notin> set xs \<Longrightarrow> filter (\<lambda>y. y \<noteq> a) xs = xs"
  by (induction xs) auto

lemma first_occurrences_distinct: "distinct xs \<Longrightarrow> first_occurrences xs = xs"
  by (induction xs) (simp_all add: filter_other)

lemma runs_from_join:
  "\<forall>t\<in>set ts. t \<noteq> [] \<and> (\<forall>c\<in>set t. P c) \<Longrightarrow> \<not> P sep \<Longrightarrow>
   runs_from P [] (join [sep] ts) = ts"
proof (induction "[sep]" ts rule: join.induct)
  case 1
  then show ?case by simp
next
  case (2 x)
  then have tw: "takeWhile P x = x" and dw: "dropWhile P x = []" and ne: "x \<noteq> []"
    by simp_all
  have "runs_from P [] x =
      (if [] @ takeWhile P x = [] then [] else [[] @ takeWhile P x]) @
      (case dropWhile P x of [] \<Rightarrow> [] | y # r \<Rightarrow> runs_from P [] r)"
    by (rule runs_from_split)
  also have "\<dots> = [x]"
    unfolding tw dw using ne by simp
  finally show ?case by simp
next
  case (3 x y ys)
  let ?rest = "join [sep] (y # ys)"
  from 3 have tw: "takeWhile P (x @ sep # ?rest) = x"
    and dw: "dropWhile P (x @ sep # ?rest) = sep # ?rest" and ne: "x \<noteq> []"
    by (simp_all add: takeWhile_append2 dropWhile_append2)
  have "runs_from P [] (x @ sep # ?rest) =
      (if [] @ takeWhile P (x @ sep # ?rest) = [] then [] else [[] @ takeWhile P (x @ sep # ?rest)]) @
      (case dropWhile P (x @ sep # ?rest) of [] \<Rightarrow> [] | y # r \<Rightarrow> runs_from P [] r)"
    by (rule runs_from_split)
  also have "\<dots> = x # runs_from P [] ?rest"
    unfolding tw dw using ne by simp
  also have "runs_from P [] ?rest = y # ys"
    using 3 by simp
  finally show ?case by simp
qed

lemma spec_extract_echo:
  "spec_extract is_word (join [newline] (spec_extract is_word text)) = spec_extract is_word text"
proof -
  let ?ids = "spec_extract is_word text"
  have good: "\<forall>t\<in>set ?ids. digit_run t"
    by (simp add: spec_extract_digit_runs)
  then have "\<forall>t\<in>set ?ids. t \<noteq> [] \<and> (\<forall>c\<in>set t. is_word c)"
    by (auto simp: digit_run_def list_all_iff is_decimal_word)
  moreover have "\<not> is_word newline"
    by (simp add: is_word_def is_alnum_def newline_def)
  ultimately have "maximal_runs is_word (join [newline] ?ids) = ?ids"
    unfolding maximal_runs_def by (rule runs_from_join)
  moreover have "filter digit_run ?ids = ?ids"
    using good by (simp add: filter_id_conv)
  moreover have "distinct ?ids"
    by (simp add: spec_extract_def distinct_first_occurrences)
  ultimately show ?thesis
    by (simp add: spec_extract_def [of is_word "join [newline] ?ids"] first_occurrences_distinct)
qed

text \<open>
  C1, as amended. For every text, the extraction step returns exactly the maximal runs of
  word characters (letters, digits and the underscore) that consist of decimal digits only
  and are at least five characters long, each distinct run once, in the order of the first
  occurrences. So a run of digits is returned when the characters next to it are not word
  characters; next to an underscore it is not returned. In particular the text
  \<^verbatim>\<open>abc123 12345\<close> gives the one identifier \<^verbatim>\<open>12345\<close>.
\<close>

theorem IdentifierExtractor_word_runs:
  "IdentifierExtractor text = spec_extract is_word text \<and>
   IdentifierExtractor ''abc123 12345'' = [''12345'']"
proof
  show "IdentifierExtractor text = spec_extract is_word text"
    by (simp add: IdentifierExtractor_first spec_extract_def re_findall_runs)
  show "IdentifierExtractor ''abc123 12345'' = [''12345'']"
    by code_simp
qed

text \<open>
  C1, as stated, fails: in the text \<^verbatim>\<open>12345_\<close> the run \<^verbatim>\<open>12345\<close> is a maximal run of five
  decimal digits between a string edge and a character that is neither a digit nor
  alphanumeric, and the extraction step returns nothing.
\<close>

theorem IdentifierExtractor_underscore_counterexample:
  "IdentifierExtractor ''12345_'' = [] \<and>
   spec_extract is_alnum ''12345_'' = [''12345''] \<and>
   IdentifierExtractor ''12345_'' \<noteq> spec_extract is_alnum ''12345_''"
  by code_simp

lemma IdentifierExtractor_echo:
  "IdentifierExtractor (join [newline] (IdentifierExtractor text)) = IdentifierExtractor text"
  by (simp add: IdentifierExtractor_spec_extract spec_extract_echo)

lemmas handler_defs =
  guarded_def unguarded_def failed_def show_admin_menu_def show_payment_format_def notify_def
  store_request_def pop_pending_def clear_user_data_def

text \<open>
  C9. The extraction is a function of the text alone. The replies and the return value of
  \<^verbatim>\<open>process_user_ids\<close> are the same from any two states and for any two users; running the
  handler again on the state left by a first run changes nothing and gives the same result;
  the list it stores is the extractor's, or nothing is stored when that list is empty. The
  extractor's list is the list of first occurrences of the pattern's matches, without
  duplicates, and extracting again from the list as echoed to the user, one identifier per
  line, gives the same list.
\<close>

theorem extraction_deterministic:
  "snd (bot_process_user_ids gw user text w) = snd (bot_process_user_ids gw user' text w') \<and>
   snd (main_process_user_ids gw user text w) = snd (main_process_user_ids gw user' text w') \<and>
   bot_process_user_ids gw user text (fst (bot_process_user_ids gw user text w)) =
     bot_process_user_ids gw user text w \<and>
   main_process_user_ids gw user text (fst (main_process_user_ids gw user text w)) =
     main_process_user_ids gw user text w \<and>
   user_data (fst (bot_process_user_ids gw user text w)) (uid user) =
     (if IdentifierExtractor text = [] then user_data w (uid user)
      else Some (IdentifierExtractor text)) \<and>
   user_data (fst (main_process_user_ids gw user text w)) (uid user) =
     (if IdentifierExtractor text = [] then user_data w (uid user)
      else Some (IdentifierExtractor text)) \<and>
   IdentifierExtractor text = first_occurrences (re_findall text) \<and>
   distinct (IdentifierExtractor text) \<and>
   IdentifierExtractor (join [newline] (IdentifierExtractor text)) = IdentifierExtractor text"
proof -
  have e: "IdentifierExtractor text = first_occurrences (re_findall text)"
    by (rule IdentifierExtractor_first)
  have d: "dedup_loop (re_findall text) [] {} = IdentifierExtractor text"
    by (simp add: IdentifierExtractor_def Let_def)
  have n: "(re_findall text = []) = (IdentifierExtractor text = [])"
    unfolding e by (cases "re_findall text") simp_all
  have 1: "snd (bot_process_user_ids gw user text w) = snd (bot_process_user_ids gw user' text w')"
    by (simp add: bot_process_user_ids_def handler_defs Let_def split: prod.splits)
  have 2: "snd (main_process_user_ids gw user text w) = snd (main_process_user_ids gw user' text w')"
    by (simp add: main_process_user_ids_def handler_defs Let_def split: prod.splits)
  have 3: "bot_process_user_ids gw user text (fst (bot_process_user_ids gw user text w)) =
     bot_process_user_ids gw user text w"
    by (simp add: bot_process_user_ids_def handler_defs Let_def split: prod.splits)
  have 4: "main_process_user_ids gw user text (fst (main_process_user_ids gw user text w)) =
     main_process_user_ids gw user text w"
    by (simp add: main_process_user_ids_def handler_defs Let_def split: prod.splits)
  have 5: "user_data (fst (bot_process_user_ids gw user text w)) (uid user) =
     (if IdentifierExtractor text = [] then user_data w (uid user)
      else Some (IdentifierExtractor text))"
    by (simp add: bot_process_user_ids_def handler_defs Let_def d n split: prod.splits)
  have 6: "user_data (fst (main_process_user_ids gw user text w)) (uid user) =
     (if IdentifierExtractor text = [] then user_data w (uid user)
      else Some (IdentifierExtractor text))"
    by (simp add: main_process_user_ids_def handler_defs Let_def d n split: prod.splits)
  have 7: "distinct (IdentifierExtractor text)"
    unfolding e by (rule distinct_first_occurrences)
  from 1 2 3 4 5 6 7 e IdentifierExtractor_echo show ?thesis
    by blast
qed

section \<open>Properties of the decision parse\<close>

lemma decimal_not_space: "is_decimal c \<Longrightarrow> \<not> is_int_space c"
  by (auto simp: is_decimal_def is_int_space_def Let_def)

lemma decimal_not_sign: "is_decimal c \<Longrightarrow> c \<noteq> CHR ''-'' \<and> c \<noteq> CHR ''+'' \<and> c \<noteq> CHR ''_''"
  by (auto simp: is_decimal_def Let_def)

lemma int_body_ok_digits: "d \<noteq> [] \<Longrightarrow> list_all is_decimal d \<Longrightarrow> int_body_ok d"
  by (induction d rule: int_body_ok.induct) (auto simp: decimal_not_sign)

lemma dropWhile_keep: "xs \<noteq> [] \<Longrightarrow> \<not> P (hd xs) \<Longrightarrow> dropWhile P xs = xs"
  by (cases xs) simp_all

lemma py_int_digits:
  assumes ne: "d \<noteq> []" and dec: "list_all is_decimal d" and sp: "list_all is_int_space sp"
  shows "py_int (d @ sp) = Inr (int (digits_value d))"
proof -
  have c: "is_decimal (hd d)" and l: "is_decimal (last d)"
    using ne dec by (simp_all add: list_all_iff)
  have front: "dropWhile is_int_space (d @ sp) = d @ sp"
    using ne c by (intro dropWhile_keep) (simp_all add: decimal_not_space)
  have "dropWhile is_int_space (rev sp @ rev d) = dropWhile is_int_space (rev d)"
    using sp by (intro dropWhile_append2) (simp add: list_all_iff)
  also have "\<dots> = rev d"
    using ne l by (intro dropWhile_keep) (simp_all add: hd_rev decimal_not_space)
  finally have rear: "rev (dropWhile is_int_space (rev (d @ sp))) = d"
    by simp
  have digits: "filter is_decimal d = d"
    using dec by (simp add: list_all_iff)
  have body: "int_body_ok d"
    using ne dec by (rule int_body_ok_digits)
  have sign: "hd d \<noteq> CHR ''-''" "hd d \<noteq> CHR ''+''"
    using c decimal_not_sign by blast+
  show ?thesis
    unfolding py_int_def front rear using ne sign body digits by (simp add: Let_def)
qed

lemma split_on_tag:
  "CHR ''_'' \<notin> set a \<Longrightarrow> CHR ''_'' \<notin> set b \<Longrightarrow> split_on CHR ''_'' (a @ CHR ''_'' # b) = [a, b]"
  by (simp add: split_on_append split_on_plain)

lemma digits_then_end_witness:
  "digits_then_end s n \<Longrightarrow> \<exists>k. 0 < k \<and> k \<le> n \<and> end_anchor (drop k s)"
proof (induction n)
  case 0
  then show ?case by simp
next
  case (Suc n)
  then show ?case
    by (metis digits_then_end.simps(2) le_Suc_eq zero_less_Suc)
qed

lemma tag_then_end_shape:
  assumes "tag_then_end s"
  shows "\<exists>d sp. s = CHR ''_'' # d @ sp \<and> d \<noteq> [] \<and> list_all is_decimal d \<and> (sp = [] \<or> sp = [newline])"
proof -
  from assms obtain ds where s: "s = CHR ''_'' # ds"
    and run: "digits_then_end ds (length (takeWhile is_decimal ds))"
    by (auto simp: tag_then_end_def split: list.splits)
  let ?d = "takeWhile is_decimal ds"
  from digits_then_end_witness [OF run] obtain k
    where k: "0 < k" "k \<le> length ?d" and e: "end_anchor (drop k ds)"
    by blast
  have "k = length ?d"
  proof (rule ccontr)
    assume "k \<noteq> length ?d"
    with k have lt: "k < length ?d" by simp
    then have "k < length ds"
      using length_takeWhile_le [of is_decimal ds] by simp
    then have dr: "drop k ds = ds ! k # drop (Suc k) ds"
      by (simp add: Cons_nth_drop_Suc)
    have "is_decimal (ds ! k)"
      using lt by (metis nth_mem set_takeWhileD takeWhile_nth)
    then have "ds ! k \<noteq> newline"
      by (auto simp: is_decimal_def newline_def Let_def)
    with e dr show False
      by (simp add: end_anchor_def)
  qed
  with e have "end_anchor (dropWhile is_decimal ds)"
    by (simp add: dropWhile_eq_drop)
  moreover have "ds = ?d @ dropWhile is_decimal ds"
    by simp
  moreover have "list_all is_decimal ?d"
    by (simp add: list_all_iff) (meson set_takeWhileD)
  moreover have "?d \<noteq> []"
    using k by auto
  ultimately show ?thesis
    unfolding s end_anchor_def by blast
qed

lemma parse_tagged:
  assumes a: "CHR ''_'' \<notin> set action" and t: "tag_then_end s"
  shows "\<exists>d sp. s = CHR ''_'' # d @ sp \<and> d \<noteq> [] \<and> list_all is_decimal d \<and>
           (sp = [] \<or> sp = [newline]) \<and>
           split_on CHR ''_'' (action @ s) = [action, d @ sp] \<and>
           parse_decision (action @ s) = Inr (action, int (digits_value d))"
proof -
  from tag_then_end_shape [OF t] obtain d sp
    where s: "s = CHR ''_'' # d @ sp" and ne: "d \<noteq> []" and dec: "list_all is_decimal d"
      and sp: "sp = [] \<or> sp = [newline]"
    by blast
  from sp have spc: "list_all is_int_space sp"
    by (auto simp: is_int_space_def newline_def)
  have "CHR ''_'' \<notin> set d"
    using dec decimal_not_sign by (auto simp: list_all_iff)
  moreover have "CHR ''_'' \<notin> set sp"
    using sp by (auto simp: newline_def)
  ultimately have split: "split_on CHR ''_'' (action @ s) = [action, d @ sp]"
    using a unfolding s by (intro split_on_tag) simp_all
  have "parse_decision (action @ s) = Inr (action, int (digits_value d))"
    by (simp add: parse_decision_def split py_int_digits [OF ne dec spc])
  with s ne dec sp split show ?thesis
    by blast
qed

lemma parse_decision_pattern:
  assumes "decision_pattern data"
  shows "\<exists>action d sp.
           (action = ''approve'' \<or> action = ''reject'') \<and>
           data = action @ CHR ''_'' # d @ sp \<and> d \<noteq> [] \<and> list_all is_decimal d \<and>
           (sp = [] \<or> sp = [newline]) \<and>
           split_on CHR ''_'' data = [action, d @ sp] \<and>
           py_int (d @ sp) = Inr (int (digits_value d)) \<and>
           parse_decision data = Inr (action, int (digits_value d))"
proof -
  from assms consider
      (approve) "take 7 data = ''approve''" "tag_then_end (drop 7 data)"
    | (reject) "take 6 data = ''reject''" "tag_then_end (drop 6 data)"
    by (auto simp: decision_pattern_def)
  then obtain action s where action: "action = ''approve'' \<or> action = ''reject''"
    and data: "data = action @ s" and t: "tag_then_end s"
  proof cases
    case approve
    then have "data = ''approve'' @ drop 7 data"
      by (metis append_take_drop_id)
    with approve that show ?thesis by blast
  next
    case reject
    then have "data = ''reject'' @ drop 6 data"
      by (metis append_take_drop_id)
    with reject that show ?thesis by blast
  qed
  from action have "CHR ''_'' \<notin> set action"
    by auto
  from parse_tagged [OF this t] obtain d sp
    where "s = CHR ''_'' # d @ sp" "d \<noteq> []" "list_all is_decimal d" "sp = [] \<or> sp = [newline]"
      "split_on CHR ''_'' (action @ s) = [action, d @ sp]"
      "parse_decision (action @ s) = Inr (action, int (digits_value d))"
    by blast
  moreover from this have "py_int (d @ sp) = Inr (int (digits_value d))"
    by (intro py_int_digits) (auto simp: is_int_space_def newline_def)
  ultimately show ?thesis
    using action data by blast
qed

text \<open>
  C10. For every action string the dispatch pattern accepts, the split at underscores gives
  exactly two parts, the word \<^verbatim>\<open>approve\<close> or \<^verbatim>\<open>reject\<close> and the digits (followed by a newline
  when the string ends with one), the conversion of the second part succeeds, and the parse
  gives the action and the value of the digits. So whenever the gateway carries out the
  acknowledgement and the edit, the handler returns without reaching an error branch, in
  both programs.
\<close>

theorem decision_parse_total:
  assumes "decision_pattern data"
  shows "(\<exists>action d sp.
           (action = ''approve'' \<or> action = ''reject'') \<and>
           data = action @ CHR ''_'' # d @ sp \<and> d \<noteq> [] \<and> list_all is_decimal d \<and>
           (sp = [] \<or> sp = [newline]) \<and>
           split_on CHR ''_'' data = [action, d @ sp] \<and>
           py_int (d @ sp) = Inr (int (digits_value d)) \<and>
           parse_decision data = Inr (action, int (digits_value d))) \<and>
         (gw Answer_callback \<and> (\<forall>m. gw (Edit_message m)) \<longrightarrow>
            snd (snd (bot_handle_approval gw data w)) = Returned () \<and>
            snd (snd (main_handle_approval gw data w)) = Returned ())"
proof
  show "\<exists>action d sp.
           (action = ''approve'' \<or> action = ''reject'') \<and>
           data = action @ CHR ''_'' # d @ sp \<and> d \<noteq> [] \<and> list_all is_decimal d \<and>
           (sp = [] \<or> sp = [newline]) \<and>
           split_on CHR ''_'' data = [action, d @ sp] \<and>
           py_int (d @ sp) = Inr (int (digits_value d)) \<and>
           parse_decision data = Inr (action, int (digits_value d))"
    using assms by (rule parse_decision_pattern)
  from parse_decision_pattern [OF assms] obtain action n
    where "parse_decision data = Inr (action, n)"
    by blast
  then show "gw Answer_callback \<and> (\<forall>m. gw (Edit_message m)) \<longrightarrow>
            snd (snd (bot_handle_approval gw data w)) = Returned () \<and>
            snd (snd (main_handle_approval gw data w)) = Returned ()"
    by (simp add: bot_handle_approval_def main_handle_approval_def Let_def)
qed

theorem decision_parse_total_witness:
  "decision_pattern ''approve_42'' \<and>
   parse_decision ''approve_42'' = Inr (''approve'', 42) \<and>
   snd (snd (bot_handle_approval reliable ''approve_42'' initial)) = Returned () \<and>
   snd (snd (main_handle_approval reliable ''approve_42'' initial)) = Returned ()"
proof -
  have p: "decision_pattern ''approve_42''"
    by code_simp
  have q: "parse_decision ''approve_42'' = Inr (''approve'', 42)"
    by code_simp
  from decision_parse_total [OF p, of reliable initial] p q show ?thesis
    by (simp add: reliable_def)
qed

section \<open>Properties of the approval workflow\<close>

text \<open>
  C3, as amended. In \<^verbatim>\<open>bot.py\<close>, the entry command of the administrator leaves the state
  as it is, so no pending request is created, sends nothing to any chat by identity, so no
  approval request goes to the administrator, and presents the administrator menu whenever
  the gateway carries out the reply. \<^verbatim>\<open>main.py\<close> has no administrator menu: there the entry
  command of an administrator who is not in the approved set creates a pending request for
  the administrator and sends the approval request to the administrator.
\<close>

theorem admin_start:
  "(uid user = admin \<longrightarrow>
      fst (bot_start admin gw user w) = w \<and>
      (\<forall>i m. Send_message i m \<notin> set (fst (snd (bot_start admin gw user w)))) \<and>
      (gw (Reply Admin_menu) \<longrightarrow>
         snd (bot_start admin gw user w) = ([Reply Admin_menu], Returned ()))) \<and>
   (uid user = admin \<and> uid user \<notin> approved_users w \<longrightarrow>
      pending_approvals (fst (main_start admin gw user w)) admin \<noteq> None \<and>
      Reply Admin_menu \<notin> set (fst (snd (main_start admin gw user w))) \<and>
      (gw (Send_message admin (request_of user)) \<longrightarrow>
         Send_message admin (request_of user) \<in> set (fst (snd (main_start admin gw user w)))))"
proof (intro conjI impI)
  assume a: "uid user = admin"
  then have b: "bot_start admin gw user w =
      guarded gw w [Reply Admin_menu] () Error_try_later ()"
    by (simp add: bot_start_def show_admin_menu_def)
  show "fst (bot_start admin gw user w) = w"
    unfolding b by (simp add: guarded_def failed_def)
  show "\<forall>i m. Send_message i m \<notin> set (fst (snd (bot_start admin gw user w)))"
    unfolding b by (simp add: guarded_def failed_def)
  show "snd (bot_start admin gw user w) = ([Reply Admin_menu], Returned ())"
    if "gw (Reply Admin_menu)"
    unfolding b using that by (simp add: guarded_def)
next
  assume a: "uid user = admin \<and> uid user \<notin> approved_users w"
  then have u: "admin = uid user" and n: "uid user \<notin> approved_users w"
    by blast+
  let ?request = "Send_message (uid user) (request_of user)"
  from n have w1: "fst (main_start a gw user w) = store_request user w" for a
    by (simp add: main_start_def Let_def split: prod.splits)
  show "pending_approvals (fst (main_start admin gw user w)) admin \<noteq> None"
    unfolding u w1 by (simp add: store_request_def)
  from n show "Reply Admin_menu \<notin> set (fst (snd (main_start admin gw user w)))"
    by (simp add: main_start_def Let_def split: prod.splits)
  from n show "Send_message admin (request_of user) \<in> set (fst (snd (main_start admin gw user w)))"
    if "gw (Send_message admin (request_of user))"
    using that by (simp add: main_start_def Let_def split: prod.splits)
qed

theorem admin_start_witness:
  "fst (bot_start 7 reliable (someone 7) initial) = initial \<and>
   snd (bot_start 7 reliable (someone 7) initial) = ([Reply Admin_menu], Returned ()) \<and>
   pending_approvals (fst (main_start 7 reliable (someone 7) initial)) 7 \<noteq> None"
  using admin_start [of "someone 7" 7 reliable initial]
  by (simp add: someone_def initial_def reliable_def)

text \<open>
  C3, as stated, fails for \<^verbatim>\<open>main.py\<close>: with the administrator identity 7 and nobody approved,
  the administrator's entry command stores a pending request for 7 and sends the approval
  request about 7 to 7.
\<close>

theorem main_start_admin_counterexample:
  "pending_approvals (fst (main_start 7 reliable (someone 7) initial)) 7 =
     Some \<lparr>username = None, first_name = ''Ann'', last_name = []\<rparr> \<and>
   snd (main_start 7 reliable (someone 7) initial) =
     ([Send_message 7 (Approval_request 7 ''No username'' ''Ann'' []), Reply Request_sent],
      Returned ())"
  by (simp add: main_start_def someone_def initial_def request_of_def handler_defs reliable_def)




lemmas bot_handlers =
  bot_start_def bot_help_command_def bot_cancel_def bot_handle_approval_def
  bot_handle_payment_format_def bot_handle_message_user_def bot_process_user_ids_def
  bot_process_amount_def bot_get_user_id_for_message_def bot_error_handler_def

lemmas main_handlers =
  main_start_def main_help_command_def main_cancel_def main_handle_approval_def
  main_handle_payment_format_def main_process_user_ids_def main_process_amount_def

lemma bot_step_approved:
  "approved_users w \<subseteq> approved_users (bot_step admin gw ev w) \<and>
   (i \<in> approved_users (bot_step admin gw ev w) \<and> i \<notin> approved_users w \<longrightarrow> approves ev i)"
  by (cases ev)
     (auto simp: bot_handlers handler_defs approves_def Let_def
           split: prod.splits if_splits sum.splits option.splits)

lemma main_step_approved:
  "approved_users w \<subseteq> approved_users (main_step admin gw ev w) \<and>
   (i \<in> approved_users (main_step admin gw ev w) \<and> i \<notin> approved_users w \<longrightarrow> approves ev i)"
  by (cases ev)
     (auto simp: main_handlers handler_defs approves_def Let_def
           split: prod.splits if_splits sum.splits option.splits)

lemma bot_run_approved:
  "approved_users w \<subseteq> approved_users (bot_run admin evs w) \<and>
   (i \<in> approved_users (bot_run admin evs w) \<and> i \<notin> approved_users w \<longrightarrow>
      (\<exists>e\<in>set evs. approves (snd e) i))"
proof (induction evs arbitrary: w)
  case Nil
  then show ?case by simp
next
  case (Cons e evs)
  obtain gw ev where e: "e = (gw, ev)" by (cases e)
  from bot_step_approved [of w admin gw ev i] Cons.IH [of "bot_step admin gw ev w"]
  show ?case
    unfolding e by (auto simp del: bot_step.simps)
qed

lemma main_run_approved:
  "approved_users w \<subseteq> approved_users (main_run admin evs w) \<and>
   (i \<in> approved_users (main_run admin evs w) \<and> i \<notin> approved_users w \<longrightarrow>
      (\<exists>e\<in>set evs. approves (snd e) i))"
proof (induction evs arbitrary: w)
  case Nil
  then show ?case by simp
next
  case (Cons e evs)
  obtain gw ev where e: "e = (gw, ev)" by (cases e)
  from main_step_approved [of w admin gw ev i] Cons.IH [of "main_step admin gw ev w"]
  show ?case
    unfolding e by (auto simp del: main_step.simps)
qed

text \<open>
  C5. No operation of either program removes an identity from the approved set: the set
  after a step, and after any run of steps, contains the set before. An identity that is in
  the set afterwards and was not before was added by a decision event whose action string
  parses as an approve decision for that identity.
\<close>

theorem approved_users_grow:
  "approved_users w \<subseteq> approved_users (bot_step admin gw ev w) \<and>
   approved_users w \<subseteq> approved_users (main_step admin gw ev w) \<and>
   (i \<in> approved_users (bot_step admin gw ev w) \<and> i \<notin> approved_users w \<longrightarrow> approves ev i) \<and>
   (i \<in> approved_users (main_step admin gw ev w) \<and> i \<notin> approved_users w \<longrightarrow> approves ev i) \<and>
   approved_users w \<subseteq> approved_users (bot_run admin evs w) \<and>
   approved_users w \<subseteq> approved_users (main_run admin evs w) \<and>
   (i \<in> approved_users (bot_run admin evs w) \<and> i \<notin> approved_users w \<longrightarrow>
      (\<exists>e\<in>set evs. approves (snd e) i)) \<and>
   (i \<in> approved_users (main_run admin evs w) \<and> i \<notin> approved_users w \<longrightarrow>
      (\<exists>e\<in>set evs. approves (snd e) i))"
  using bot_step_approved [of w admin gw ev i] main_step_approved [of w admin gw ev i]
    bot_run_approved [of w admin evs i] main_run_approved [of w admin evs i]
  by blast

theorem approved_users_grow_witness:
  "approved_users
     (bot_run 7 [(reliable, Start (someone 5)), (unreachable_users, Decision ''approve_5''),
                 (reliable, Decision ''reject_5''), (reliable, Cancel (someone 5))] initial) = {5} \<and>
   approved_users initial \<subseteq>
     approved_users
       (bot_run 7 [(reliable, Start (someone 5)), (unreachable_users, Decision ''approve_5''),
                   (reliable, Decision ''reject_5''), (reliable, Cancel (someone 5))] initial) \<and>
   approves (Decision ''approve_5'') 5 \<and>
   approved_users
     (main_run 7 [(reliable, Start (someone 5)), (unreachable_users, Decision ''approve_5''),
                  (reliable, Decision ''reject_5''), (reliable, Cancel (someone 5))] initial) = {5}"
proof -
  have a: "parse_decision ''approve_5'' = Inr (''approve'', 5)"
    by code_simp
  have r: "parse_decision ''reject_5'' = Inr (''reject'', 5)"
    by code_simp
  have b: "approved_users
     (bot_run 7 [(reliable, Start (someone 5)), (unreachable_users, Decision ''approve_5''),
                 (reliable, Decision ''reject_5''), (reliable, Cancel (someone 5))] initial) = {5}"
    by (simp add: bot_handlers handler_defs a r initial_def someone_def reliable_def
          unreachable_users_def)
  have m: "approved_users
     (main_run 7 [(reliable, Start (someone 5)), (unreachable_users, Decision ''approve_5''),
                  (reliable, Decision ''reject_5''), (reliable, Cancel (someone 5))] initial) = {5}"
    by (simp add: main_handlers handler_defs a r initial_def someone_def reliable_def
          unreachable_users_def)
  from approved_users_grow [of initial 7 reliable "Decision ''approve_5''" 5
      "[(reliable, Start (someone 5)), (unreachable_users, Decision ''approve_5''),
        (reliable, Decision ''reject_5''), (reliable, Cancel (someone 5))]"]
    a b m
  show ?thesis
    by (simp add: approves_def)
qed

text \<open>
  C7, as amended. The entry command of an identity in the approved set leaves the whole
  state, and so the pending requests, as it is, in both programs. Whenever the gateway
  carries out the reply, the identity receives the payment-format prompt, except that in
  \<^verbatim>\<open>bot.py\<close> the administrator, also when in the approved set, receives the administrator
  menu.
\<close>

theorem approved_start:
  assumes "uid user \<in> approved_users w"
  shows "fst (bot_start admin gw user w) = w \<and> fst (main_start admin gw user w) = w \<and>
         (gw (Reply Payment_format_prompt) \<longrightarrow>
            snd (main_start admin gw user w) = ([Reply Payment_format_prompt], Returned ()) \<and>
            (uid user \<noteq> admin \<longrightarrow>
               snd (bot_start admin gw user w) = ([Reply Payment_format_prompt], Returned ()))) \<and>
         (uid user = admin \<and> gw (Reply Admin_menu) \<longrightarrow>
            snd (bot_start admin gw user w) = ([Reply Admin_menu], Returned ()))"
  using assms
  by (auto simp: bot_start_def main_start_def handler_defs split: prod.splits if_splits)

theorem approved_start_witness:
  "5 \<in> approved_users (initial\<lparr>approved_users := {5}\<rparr>) \<and>
   bot_start 7 reliable (someone 5) (initial\<lparr>approved_users := {5}\<rparr>) =
     (initial\<lparr>approved_users := {5}\<rparr>, [Reply Payment_format_prompt], Returned ()) \<and>
   main_start 7 reliable (someone 5) (initial\<lparr>approved_users := {5}\<rparr>) =
     (initial\<lparr>approved_users := {5}\<rparr>, [Reply Payment_format_prompt], Returned ())"
proof -
  have h: "uid (someone 5) \<in> approved_users (initial\<lparr>approved_users := {5}\<rparr>)"
    by (simp add: someone_def)
  from approved_start [OF h, of 7 reliable] show ?thesis
    by (simp add: someone_def reliable_def prod_eq_iff)
qed

text \<open>
  C7, as stated, fails for the administrator in \<^verbatim>\<open>bot.py\<close>: after a decision event with the
  action string \<^verbatim>\<open>approve_7\<close> the administrator 7 is in the approved set, and the entry command
  of 7 is answered with the administrator menu, not with the payment-format prompt.
\<close>

theorem approved_admin_counterexample:
  "7 \<in> approved_users (bot_run 7 [(reliable, Decision ''approve_7'')] initial) \<and>
   snd (bot_start 7 reliable (someone 7) (bot_run 7 [(reliable, Decision ''approve_7'')] initial)) =
     ([Reply Admin_menu], Returned ()) \<and>
   Reply Payment_format_prompt \<notin>
     set (fst (snd (bot_start 7 reliable (someone 7)
       (bot_run 7 [(reliable, Decision ''approve_7'')] initial))))"
proof -
  have a: "parse_decision ''approve_7'' = Inr (''approve'', 7)"
    by code_simp
  show ?thesis
    by (simp add: bot_start_def bot_handle_approval_def handler_defs a initial_def someone_def
          reliable_def)
qed

section \<open>Properties of the administrator's message feature\<close>

lemma strip_decimal_int:
  assumes "list_all is_decimal s" and "5 \<le> length s"
  shows "py_int s = Inr (int (digits_value s))" and "py_isdigit s"
proof -
  from assms have ne: "s \<noteq> []" by auto
  from py_int_digits [OF ne assms(1), of "[]"] show "py_int s = Inr (int (digits_value s))"
    by simp
  have "is_digit c" if "is_decimal c" for c
    using that by (simp add: is_decimal_def is_digit_def Let_def)
  with assms(1) ne show "py_isdigit s"
    by (auto simp: py_isdigit_def list_all_iff)
qed

lemma digit_plain: "is_digit c \<Longrightarrow> \<not> is_int_space c \<and> c \<noteq> CHR ''-'' \<and> c \<noteq> CHR ''+'' \<and> c \<noteq> CHR ''_''"
  by (auto simp: is_digit_def is_int_space_def Let_def)

lemma int_body_ok_decimal: "int_body_ok s \<Longrightarrow> CHR ''_'' \<notin> set s \<Longrightarrow> list_all is_decimal s"
  by (induction s rule: int_body_ok.induct) (auto split: if_splits)

lemma py_int_needs_decimal:
  assumes ok: "py_int s = Inr n" and dig: "py_isdigit s"
  shows "list_all is_decimal s"
proof -
  from dig have ne: "s \<noteq> []" and all: "\<forall>c\<in>set s. is_digit c"
    by (simp_all add: py_isdigit_def list_all_iff)
  then have h: "is_digit (hd s)" and l: "is_digit (last s)"
    by simp_all
  have front: "dropWhile is_int_space s = s"
    using ne h by (intro dropWhile_keep) (simp_all add: digit_plain)
  have "dropWhile is_int_space (rev s) = rev s"
    using ne l by (intro dropWhile_keep) (simp_all add: hd_rev digit_plain)
  then have rear: "rev (dropWhile is_int_space (rev s)) = s"
    by simp
  from h have sign: "hd s \<noteq> CHR ''-''" "hd s \<noteq> CHR ''+''"
    using digit_plain by blast+
  from ok have "int_body_ok s"
    unfolding py_int_def front rear using ne sign by (simp add: Let_def split: if_splits)
  moreover have "CHR ''_'' \<notin> set s"
    using all digit_plain by blast
  ultimately show ?thesis
    by (rule int_body_ok_decimal)
qed

text \<open>
  C8, as amended. The handler of the state that waits for a target identity never changes
  the state, and it decides on the text with the surrounding whitespace removed. When that
  is all decimal digits and at least five characters long, and the gateway carries out the
  replies, the handler shows the link to the identity the digits denote, shows the
  administrator menu again and ends the conversation. When it contains a character that is
  not a digit or is shorter than five characters, and the gateway carries out the reply,
  the handler asks again and stays in the state. A link is shown only for a text that,
  without its surrounding whitespace, is all decimal digits and at least five characters
  long.
\<close>

theorem target_id_validation:
  "fst (bot_get_user_id_for_message gw text w) = w \<and>
   (list_all is_decimal (strip text) \<and> 5 \<le> length (strip text) \<and>
    gw (Reply (Deep_link (int (digits_value (strip text))))) \<and> gw (Reply Admin_menu) \<longrightarrow>
      snd (bot_get_user_id_for_message gw text w) =
        ([Reply (Deep_link (int (digits_value (strip text)))), Reply Admin_menu], Returned END)) \<and>
   ((\<not> list_all is_digit (strip text) \<or> length (strip text) < 5) \<and> gw (Reply Invalid_user_id) \<longrightarrow>
      snd (bot_get_user_id_for_message gw text w) =
        ([Reply Invalid_user_id], Returned WAITING_FOR_USER_ID)) \<and>
   ((\<exists>n. Reply (Deep_link n) \<in> set (fst (snd (bot_get_user_id_for_message gw text w)))) \<longrightarrow>
      list_all is_decimal (strip text) \<and> 5 \<le> length (strip text))"
proof (intro conjI impI)
  show "fst (bot_get_user_id_for_message gw text w) = w"
    by (auto simp: bot_get_user_id_for_message_def handler_defs Let_def
             split: prod.splits if_splits sum.splits)
next
  assume a: "list_all is_decimal (strip text) \<and> 5 \<le> length (strip text) \<and>
    gw (Reply (Deep_link (int (digits_value (strip text))))) \<and> gw (Reply Admin_menu)"
  then have "py_int (strip text) = Inr (int (digits_value (strip text)))" and "py_isdigit (strip text)"
    by (simp_all add: strip_decimal_int)
  with a show "snd (bot_get_user_id_for_message gw text w) =
        ([Reply (Deep_link (int (digits_value (strip text)))), Reply Admin_menu], Returned END)"
    by (simp add: bot_get_user_id_for_message_def handler_defs Let_def)
next
  assume a: "(\<not> list_all is_digit (strip text) \<or> length (strip text) < 5) \<and> gw (Reply Invalid_user_id)"
  then have "\<not> py_isdigit (strip text) \<or> length (strip text) < 5"
    by (auto simp: py_isdigit_def)
  with a show "snd (bot_get_user_id_for_message gw text w) =
        ([Reply Invalid_user_id], Returned WAITING_FOR_USER_ID)"
    by (auto simp: bot_get_user_id_for_message_def handler_defs Let_def)
next
  assume "\<exists>n. Reply (Deep_link n) \<in> set (fst (snd (bot_get_user_id_for_message gw text w)))"
  then obtain n where n: "Reply (Deep_link n) \<in> set (fst (snd (bot_get_user_id_for_message gw text w)))"
    by blast
  have dig: "py_isdigit (strip text)" and len: "5 \<le> length (strip text)"
    using n by (auto simp: bot_get_user_id_for_message_def handler_defs Let_def
                     split: prod.splits if_splits sum.splits)
  have "\<exists>m. py_int (strip text) = Inr m"
    using n by (auto simp: bot_get_user_id_for_message_def handler_defs Let_def
                     split: prod.splits if_splits sum.splits)
  then have "list_all is_decimal (strip text)"
    using dig py_int_needs_decimal by blast
  with len show "list_all is_decimal (strip text)" and "5 \<le> length (strip text)"
    by simp_all
qed

theorem target_id_validation_witness:
  "snd (bot_get_user_id_for_message reliable ''1234567890'' initial) =
     ([Reply (Deep_link 1234567890), Reply Admin_menu], Returned END) \<and>
   snd (bot_get_user_id_for_message reliable ''12a45'' initial) =
     ([Reply Invalid_user_id], Returned WAITING_FOR_USER_ID)"
  using target_id_validation [of reliable "''1234567890''" initial]
        target_id_validation [of reliable "''12a45''" initial]
  by (simp add: strip_def is_space_def is_decimal_def is_digit_def digits_value_def
        digit_value_def reliable_def)

text \<open>
  C8, as stated, fails: the text made of a space and \<^verbatim>\<open>12345\<close> is not all decimal digits,
  and the handler accepts it.
\<close>

theorem target_id_whitespace_counterexample:
  "\<not> list_all is_decimal '' 12345'' \<and>
   snd (bot_get_user_id_for_message reliable '' 12345'' initial) =
     ([Reply (Deep_link 12345), Reply Admin_menu], Returned END)"
  by code_simp

section \<open>Properties of the configuration\<close>

text \<open>
  C6, as amended. \<^verbatim>\<open>bot.py\<close> ends with status 1, before the application is built, when the
  token is missing or empty or when the administrator identity is missing or does not
  convert to an integer; it polls only with a token and an administrator identity that
  converts. \<^verbatim>\<open>main.py\<close> ends with status 1 when the administrator identity is present and
  does not convert; when it is missing, \<^verbatim>\<open>main.py\<close> takes 0 for it and polls as soon as the
  library builds the application from the token, which \<^verbatim>\<open>main.py\<close> does not check itself.
\<close>

theorem config_validation:
  "(environ ''BOT_TOKEN'' = None \<or> environ ''BOT_TOKEN'' = Some [] \<or>
    environ ''ADMIN_ID'' = None \<or>
    (\<exists>a. environ ''ADMIN_ID'' = Some a \<and> py_int a = Inl ValueError) \<longrightarrow>
      bot_process builds environ = Exited 1) \<and>
   ((\<exists>a. environ ''ADMIN_ID'' = Some a \<and> py_int a = Inl ValueError) \<longrightarrow>
      main_process builds environ = Exited 1) \<and>
   (environ ''ADMIN_ID'' = None \<and> builds (environ ''BOT_TOKEN'') \<longrightarrow>
      main_process builds environ =
        Polling \<lparr>BOT_TOKEN = environ ''BOT_TOKEN'', ADMIN_ID = 0,
                 OWNER_USERNAME = owner_of environ\<rparr>) \<and>
   (bot_process builds environ = Polling cfg \<longrightarrow>
      (\<exists>token admin. environ ''BOT_TOKEN'' = Some token \<and> token \<noteq> [] \<and>
         environ ''ADMIN_ID'' = Some admin \<and> py_int admin = Inr (ADMIN_ID cfg) \<and>
         BOT_TOKEN cfg = Some token))"
  by (auto simp: bot_process_def main_process_def bot_config_def main_config_def
           split: option.splits sum.splits if_splits)

theorem config_validation_witness:
  "bot_process (\<lambda>t. True) (Map.empty(''BOT_TOKEN'' \<mapsto> ''123:abc'', ''ADMIN_ID'' \<mapsto> ''12a'')) = Exited 1 \<and>
   main_process (\<lambda>t. True) (Map.empty(''BOT_TOKEN'' \<mapsto> ''123:abc'', ''ADMIN_ID'' \<mapsto> ''12a'')) = Exited 1 \<and>
   bot_process (\<lambda>t. True) (Map.empty(''ADMIN_ID'' \<mapsto> ''12'')) = Exited 1 \<and>
   bot_process (\<lambda>t. True) (Map.empty(''BOT_TOKEN'' \<mapsto> ''123:abc'')) = Exited 1"
proof -
  have bad: "py_int ''12a'' = Inl ValueError"
    by code_simp
  show ?thesis
    using config_validation [of "Map.empty(''BOT_TOKEN'' \<mapsto> ''123:abc'', ''ADMIN_ID'' \<mapsto> ''12a'')" "\<lambda>t. True"]
      config_validation [of "Map.empty(''ADMIN_ID'' \<mapsto> ''12'')" "\<lambda>t. True"]
      config_validation [of "Map.empty(''BOT_TOKEN'' \<mapsto> ''123:abc'')" "\<lambda>t. True"]
    by (simp add: bad)
qed

text \<open>
  C6, as stated, fails for \<^verbatim>\<open>main.py\<close>: with a token the library accepts and no
  administrator identity in the environment, the process polls, with the administrator
  identity 0.
\<close>

theorem main_missing_admin_counterexample:
  "(Map.empty(''BOT_TOKEN'' \<mapsto> ''123:abc'')) ''ADMIN_ID'' = None \<and>
   main_process (\<lambda>t. t = Some ''123:abc'') (Map.empty(''BOT_TOKEN'' \<mapsto> ''123:abc'')) =
     Polling \<lparr>BOT_TOKEN = Some ''123:abc'', ADMIN_ID = 0, OWNER_USERNAME = ''@dtxzahid''\<rparr>"
  by (simp add: main_process_def main_config_def owner_of_def)

end
